theory Spec2Isabelle
  imports Complex_Main "HOL-Library.Sublist"
begin

section \<open>The image editor of Aether Lens (src/components/ImageEditor.tsx)\<close>

text \<open>
  The editor is a React component. Its state is three \<open>useState\<close> cells (the history
  array, the history index and the working state), a loaded image and a canvas. The
  handlers and the effects of the component are embedded below as functions on that
  state. JavaScript numbers are embedded as follows: the slider fields and the rotation
  are integers (\<open>int\<close>), the history index is an \<open>int\<close> (so that a negative index would
  be visible), and the geometry is computed in exact rational arithmetic (\<open>rat\<close>):
  the rounding of IEEE doubles is not part of the model.
\<close>

subsection \<open>EditorState and Partial<EditorState>\<close>

text \<open>The field \<open>cropRatio\<close> is declared as the union
  \<open>'original' | '1:1' | '4:3' | '16:9'\<close>, but the crop buttons pass their label as
  \<open>ratio as any\<close> and no handler checks the value: at run time the field holds a string,
  and the draw effect treats it as one. The labels of the four buttons:\<close>

definition ratios :: "string list" where
  "ratios = [''original'', ''1:1'', ''4:3'', ''16:9'']"

record EditorState =
  brightness :: int
  contrast :: int
  saturation :: int
  rotation :: int
  cropRatio :: string
  filterPreset :: string

definition initialState :: EditorState where
  "initialState =
     \<lparr>brightness = 100, contrast = 100, saturation = 100, rotation = 0,
      cropRatio = ''original'', filterPreset = ''none''\<rparr>"

text \<open>\<open>Partial<EditorState>\<close>: every field may be absent.\<close>

record PartialState =
  p_brightness :: "int option"
  p_contrast :: "int option"
  p_saturation :: "int option"
  p_rotation :: "int option"
  p_cropRatio :: "string option"
  p_filterPreset :: "string option"

text \<open>The empty object \<open>{}\<close>, the default argument of \<open>commitChange\<close>.\<close>

definition no_change :: PartialState where
  "no_change =
     \<lparr>p_brightness = None, p_contrast = None, p_saturation = None, p_rotation = None,
      p_cropRatio = None, p_filterPreset = None\<rparr>"

text \<open>The object spread \<open>{ ...prev, ...partial }\<close>: a field of \<open>partial\<close> that is present
  overrides the field of \<open>prev\<close>; the value is copied as it is.\<close>

definition spread :: "EditorState \<Rightarrow> PartialState \<Rightarrow> EditorState" where
  "spread prev partial =
     \<lparr>brightness = (case p_brightness partial of None \<Rightarrow> brightness prev | Some v \<Rightarrow> v),
      contrast = (case p_contrast partial of None \<Rightarrow> contrast prev | Some v \<Rightarrow> v),
      saturation = (case p_saturation partial of None \<Rightarrow> saturation prev | Some v \<Rightarrow> v),
      rotation = (case p_rotation partial of None \<Rightarrow> rotation prev | Some v \<Rightarrow> v),
      cropRatio = (case p_cropRatio partial of None \<Rightarrow> cropRatio prev | Some v \<Rightarrow> v),
      filterPreset = (case p_filterPreset partial of None \<Rightarrow> filterPreset prev | Some v \<Rightarrow> v)\<rparr>"

subsection \<open>The draw effect: crop window\<close>

text \<open>\<open>s.split(d)\<close> for a one-character separator: the pieces between the separators,
  \<open>['']\<close> for the empty string.\<close>

fun split_on :: "char \<Rightarrow> string \<Rightarrow> string list" where
  "split_on d [] = [[]]"
| "split_on d (c # cs) =
     (if c = d then [] # split_on d cs
      else (case split_on d cs of [] \<Rightarrow> [[c]] | r # rs \<Rightarrow> (c # r) # rs))"

text \<open>\<open>Number(s)\<close> on a string of decimal digits: the number the digits denote, and 0
  for the empty string. (Other strings, for which \<open>Number\<close> may give \<open>NaN\<close>, are outside
  the model.)\<close>

definition digit_val :: "char \<Rightarrow> nat" where
  "digit_val c = of_char c - 48"

definition Number_digits :: "string \<Rightarrow> rat" where
  "Number_digits s = of_nat (foldl (\<lambda>a c. 10 * a + digit_val c) 0 s)"

text \<open>The strings of decimal digits.\<close>

definition decimal :: "string \<Rightarrow> bool" where
  "decimal s = list_all (\<lambda>c. c \<in> set ''0123456789'') s"

record Crop =
  cropX :: rat
  cropY :: rat
  cropW :: rat
  cropH :: rat

text \<open>Step 1 of the draw effect, for an image of \<open>naturalWidth\<close> by \<open>naturalHeight\<close>
  pixels and any label \<open>cr\<close>. The numbers are rationals, so the model is the code where
  the code computes with finite numbers: for \<open>naturalHeight > 0\<close> and a label that is
  \<open>original\<close> or splits at its colons into at least two parts, the first two of them
  strings of decimal digits and the second not denoting 0 (elsewhere JavaScript computes
  with \<open>NaN\<close> or \<open>Infinity\<close>).\<close>

definition crop_window :: "nat \<Rightarrow> nat \<Rightarrow> string \<Rightarrow> Crop" where
  "crop_window naturalWidth naturalHeight cr =
     (let srcW = (of_nat naturalWidth :: rat);
          srcH = (of_nat naturalHeight :: rat)
      in if cr \<noteq> ''original'' then
           (let parts = map Number_digits (split_on CHR '':'' cr);
                rw = parts ! 0;
                rh = parts ! 1;
                targetRatio = rw / rh;
                srcRatio = srcW / srcH
            in if srcRatio > targetRatio then
                 \<lparr>cropX = (srcW - srcH * targetRatio) / 2, cropY = 0,
                  cropW = srcH * targetRatio, cropH = srcH\<rparr>
               else
                 \<lparr>cropX = 0, cropY = (srcH - srcW / targetRatio) / 2,
                  cropW = srcW, cropH = srcW / targetRatio\<rparr>)
         else \<lparr>cropX = 0, cropY = 0, cropW = srcW, cropH = srcH\<rparr>)"

subsection \<open>The draw effect: canvas size\<close>

text \<open>The remainder operator \<open>%\<close> of JavaScript on integers: the result has the sign of
  the dividend.\<close>

definition js_rem :: "int \<Rightarrow> int \<Rightarrow> int" where
  "js_rem a b = sgn a * (\<bar>a\<bar> mod \<bar>b\<bar>)"

definition isRotated :: "int \<Rightarrow> bool" where
  "isRotated rot = (js_rem rot 180 \<noteq> 0)"

text \<open>The values the code assigns to \<open>canvas.width\<close> and \<open>canvas.height\<close>. (The
  conversion of the assigned number to the integer attribute is done by the browser, not
  by the code, and is not modelled.)\<close>

definition canvas_size :: "Crop \<Rightarrow> int \<Rightarrow> rat \<times> rat" where
  "canvas_size c rot =
     (if isRotated rot then (cropH c, cropW c) else (cropW c, cropH c))"

subsection \<open>The draw effect: filter string\<close>

text \<open>The text a template literal gives for an integer (of magnitude below \<open>10^21\<close>, where
  JavaScript switches to exponent notation): decimal digits, with a minus sign in front of
  a negative number.\<close>

fun digits :: "nat \<Rightarrow> string" where
  "digits n =
     (if n < 10 then [char_of (48 + n)]
      else digits (n div 10) @ [char_of (48 + n mod 10)])"

declare digits.simps [simp del]

definition number_text :: "int \<Rightarrow> string" where
  "number_text i = (if i < 0 then CHR ''-'' # digits (nat (- i)) else digits (nat i))"

text \<open>Step 3 of the draw effect: the initial value of \<open>filterString\<close> and the
  \<open>switch\<close> on \<open>filterPreset\<close>, which has no default branch.\<close>

definition filterString :: "EditorState \<Rightarrow> string" where
  "filterString s =
     (let fs = ''brightness('' @ number_text (brightness s) @ ''%) contrast(''
               @ number_text (contrast s) @ ''%) saturate(''
               @ number_text (saturation s) @ ''%)'';
          p = filterPreset s
      in if p = ''grayscale'' then fs @ '' grayscale(100%)''
         else if p = ''sepia'' then fs @ '' sepia(100%)''
         else if p = ''invert'' then fs @ '' invert(100%)''
         else if p = ''warm'' then fs @ '' sepia(30%) saturate(140%)''
         else if p = ''cool'' then fs @ '' hue-rotate(180deg) opacity(90%)''
         else if p = ''vintage'' then
           fs @ '' sepia(40%) saturate(150%) contrast(90%) brightness(110%)''
         else if p = ''bw-film'' then fs @ '' grayscale(100%) contrast(120%) brightness(90%)''
         else if p = ''neo-noir'' then fs @ '' contrast(140%) brightness(80%) saturate(80%)''
         else if p = ''polaroid'' then
           fs @ '' contrast(80%) brightness(120%) saturate(120%) sepia(20%)''
         else if p = ''dramatic'' then fs @ '' contrast(150%) brightness(90%)''
         else fs)"

text \<open>The array \<open>filters\<close> of the component: the presets the filter tab offers.\<close>

definition filters :: "string list" where
  "filters =
     [''none'', ''grayscale'', ''sepia'', ''invert'', ''warm'', ''cool'', ''vintage'',
      ''bw-film'', ''neo-noir'', ''polaroid'', ''dramatic'']"

subsection \<open>The draw effect: what is put on the canvas\<close>

text \<open>What one run of the draw effect leaves on the canvas: the numbers assigned to
  \<open>canvas.width\<close> and \<open>canvas.height\<close>, the filter of the context, the translation, the
  rotation (the code passes \<open>rotation * \<pi> / 180\<close>; the model keeps \<open>rotation\<close>, in
  degrees), and the source and destination rectangles of \<open>drawImage\<close>. The translation
  reads \<open>canvas.width\<close> and \<open>canvas.height\<close> back: the attributes are integers, and the
  browser has dropped the fraction of the numbers assigned (\<open>canvas_attribute\<close>, for
  the sizes from 0 to \<open>2^31 - 1\<close> that images have).\<close>

definition canvas_attribute :: "rat \<Rightarrow> rat" where
  "canvas_attribute x = of_int \<lfloor>x\<rfloor>"

record Canvas =
  cv_width :: rat
  cv_height :: rat
  cv_filter :: string
  cv_translate :: "rat \<times> rat"
  cv_rotate :: int
  cv_source :: Crop
  cv_dest :: "rat \<times> rat \<times> rat \<times> rat"

definition draw :: "nat \<times> nat \<Rightarrow> EditorState \<Rightarrow> Canvas" where
  "draw img s =
     (let c = crop_window (fst img) (snd img) (cropRatio s);
          size = canvas_size c (rotation s);
          drawW = cropW c;
          drawH = cropH c
      in \<lparr>cv_width = fst size, cv_height = snd size,
          cv_filter = filterString s,
          cv_translate = (canvas_attribute (fst size) / 2, canvas_attribute (snd size) / 2),
          cv_rotate = rotation s,
          cv_source = c,
          cv_dest = (- drawW / 2, - drawH / 2, drawW, drawH)\<rparr>)"

subsection \<open>The state of the component\<close>

text \<open>The three state cells, the loaded image (its natural width and height, \<open>None\<close>
  while it is \<open>null\<close>) and the content of the canvas (\<open>None\<close> while nothing has been drawn
  on it). The component is modelled while the editor is open.\<close>

record Editor =
  history :: "EditorState list"
  historyIndex :: int
  currentState :: EditorState
  loaded :: "(nat \<times> nat) option"
  canvas :: "Canvas option"

datatype error = TypeError

text \<open>\<open>xs[i]\<close>: \<open>undefined\<close> (here \<open>None\<close>) outside the array.\<close>

definition at_index :: "'a list \<Rightarrow> int \<Rightarrow> 'a option" where
  "at_index xs i = (if 0 \<le> i \<and> i < int (length xs) then Some (xs ! nat i) else None)"

text \<open>\<open>xs.slice(0, end)\<close>: a negative \<open>end\<close> counts from the end of the array.\<close>

definition slice0 :: "'a list \<Rightarrow> int \<Rightarrow> 'a list" where
  "slice0 xs end =
     (if end < 0 then take (nat (int (length xs) + end)) xs else take (nat end) xs)"

subsection \<open>The handlers\<close>

definition pushToHistory :: "Editor \<Rightarrow> EditorState \<Rightarrow> Editor" where
  "pushToHistory e newState =
     (let newHistory = slice0 (history e) (historyIndex e + 1) @ [newState]
      in e\<lparr>history := newHistory, historyIndex := int (length newHistory) - 1\<rparr>)"

definition handleUndo :: "Editor \<Rightarrow> Editor" where
  "handleUndo e =
     (if historyIndex e > 0 then e\<lparr>historyIndex := historyIndex e - 1\<rparr> else e)"

definition handleRedo :: "Editor \<Rightarrow> Editor" where
  "handleRedo e =
     (if historyIndex e < int (length (history e)) - 1
      then e\<lparr>historyIndex := historyIndex e + 1\<rparr> else e)"

definition updateCurrentState :: "Editor \<Rightarrow> PartialState \<Rightarrow> Editor" where
  "updateCurrentState e partial = e\<lparr>currentState := spread (currentState e) partial\<rparr>"

definition commitChange :: "Editor \<Rightarrow> PartialState \<Rightarrow> Editor" where
  "commitChange e partial =
     (let newState = spread (currentState e) partial
      in pushToHistory (e\<lparr>currentState := newState\<rparr>) newState)"

text \<open>\<open>canvas.toDataURL('image/jpeg', 0.92)\<close>: the type, the quality and the content of
  the canvas that is encoded.\<close>

record DataURL =
  mime :: string
  quality :: rat
  encoded :: "Canvas option"

definition handleSave :: "Editor \<Rightarrow> DataURL" where
  "handleSave e = \<lparr>mime = ''image/jpeg'', quality = 92 / 100, encoded = canvas e\<rparr>"

subsection \<open>The effects\<close>

text \<open>The effect \<open>setCurrentState(history[historyIndex])\<close>. An index outside the array
  would store \<open>undefined\<close>, and the next render or draw, which reads the fields of
  \<open>currentState\<close>, would throw a TypeError.\<close>

definition syncEffect :: "Editor \<Rightarrow> error + Editor" where
  "syncEffect e =
     (case at_index (history e) (historyIndex e) of
        None \<Rightarrow> Inl TypeError
      | Some s \<Rightarrow> Inr (e\<lparr>currentState := s\<rparr>))"

text \<open>The draw effect returns at once while the image is \<open>null\<close>.\<close>

definition drawEffect :: "Editor \<Rightarrow> Editor" where
  "drawEffect e =
     (case loaded e of
        None \<Rightarrow> e
      | Some img \<Rightarrow> e\<lparr>canvas := Some (draw img (currentState e))\<rparr>)"

text \<open>The effects that follow a handler. The sync effect depends on \<open>history\<close> and
  \<open>historyIndex\<close>: it runs when the handler has stored a new array (\<open>newArray\<close>) or
  another index, and not otherwise. The draw effect depends on \<open>currentState\<close> and
  \<open>image\<close>; running it again on the same values draws the same canvas.\<close>

definition after_render :: "bool \<Rightarrow> Editor \<Rightarrow> Editor \<Rightarrow> error + Editor" where
  "after_render newArray old new =
     (if newArray \<or> historyIndex new \<noteq> historyIndex old then
        (case syncEffect new of Inl err \<Rightarrow> Inl err | Inr e \<Rightarrow> Inr (drawEffect e))
      else Inr (drawEffect new))"

subsection \<open>Sessions\<close>

text \<open>Opening the editor (the reset effect, then the sync and draw effects) with the
  image already loaded or not.\<close>

definition open_editor :: "(nat \<times> nat) option \<Rightarrow> Editor" where
  "open_editor img =
     drawEffect \<lparr>history = [initialState], historyIndex = 0, currentState = initialState,
                 loaded = img, canvas = None\<rparr>"

datatype event =
    Undo
  | Redo
  | LiveUpdate PartialState
  | Commit PartialState
  | ImageLoaded nat nat

fun fire :: "Editor \<Rightarrow> event \<Rightarrow> error + Editor" where
  "fire e Undo = after_render False e (handleUndo e)"
| "fire e Redo = after_render False e (handleRedo e)"
| "fire e (LiveUpdate partial) = after_render False e (updateCurrentState e partial)"
| "fire e (Commit partial) = after_render True e (commitChange e partial)"
| "fire e (ImageLoaded w h) = after_render False e (e\<lparr>loaded := Some (w, h)\<rparr>)"

fun run :: "Editor \<Rightarrow> event list \<Rightarrow> error + Editor" where
  "run e [] = Inr e"
| "run e (ev # evs) = (case fire e ev of Inl err \<Rightarrow> Inl err | Inr e' \<Rightarrow> run e' evs)"

text \<open>A partial update that sets every field: committing it records exactly \<open>s\<close>.\<close>

definition full :: "EditorState \<Rightarrow> PartialState" where
  "full s =
     \<lparr>p_brightness = Some (brightness s), p_contrast = Some (contrast s),
      p_saturation = Some (saturation s), p_rotation = Some (rotation s),
      p_cropRatio = Some (cropRatio s), p_filterPreset = Some (filterPreset s)\<rparr>"

subsection \<open>The geometry algorithm of the specification\<close>

text \<open>Section 4.3 of the specification, word by word: the target ratio \<open>r = rw/rh\<close> from
  the two components of the ratio, the comparison of \<open>W/H\<close> with \<open>r\<close>, the centred crop,
  and the swap of the bounding box when \<open>rotationDegrees mod 180 \<noteq> 0\<close>.\<close>

text \<open>The two components of the three ratios of the specification. (The specification
  has no other ratio; the value given for any other label is not used.)\<close>

definition spec_components :: "string \<Rightarrow> rat \<times> rat" where
  "spec_components cr =
     (if cr = ''4:3'' then (4, 3) else if cr = ''16:9'' then (16, 9) else (1, 1))"

definition spec_crop :: "nat \<Rightarrow> nat \<Rightarrow> string \<Rightarrow> Crop" where
  "spec_crop W H cr =
     (if cr = ''original'' then \<lparr>cropX = 0, cropY = 0, cropW = of_nat W, cropH = of_nat H\<rparr>
      else
        (let r = fst (spec_components cr) / snd (spec_components cr)
         in if of_nat W / of_nat H > r then
              \<lparr>cropX = (of_nat W - of_nat H * r) / 2, cropY = 0,
               cropW = of_nat H * r, cropH = of_nat H\<rparr>
            else
              \<lparr>cropX = 0, cropY = (of_nat H - of_nat W / r) / 2,
               cropW = of_nat W, cropH = of_nat W / r\<rparr>))"

definition spec_bounding_box :: "Crop \<Rightarrow> int \<Rightarrow> rat \<times> rat" where
  "spec_bounding_box c rotationDegrees =
     (if rotationDegrees mod 180 \<noteq> 0 then (cropH c, cropW c) else (cropW c, cropH c))"

text \<open>Step 2 of section 4.3 for a target ratio \<open>r\<close> given as a number: the centred crop
  of ratio \<open>r\<close>.\<close>

definition centred_crop :: "nat \<Rightarrow> nat \<Rightarrow> rat \<Rightarrow> Crop" where
  "centred_crop W H r =
     (if of_nat W / of_nat H > r then
        \<lparr>cropX = (of_nat W - of_nat H * r) / 2, cropY = 0,
         cropW = of_nat H * r, cropH = of_nat H\<rparr>
      else
        \<lparr>cropX = 0, cropY = (of_nat H - of_nat W / r) / 2,
         cropW = of_nat W, cropH = of_nat W / r\<rparr>)"

subsection \<open>The filter chain of the specification\<close>

text \<open>Section 4.4 of the specification: an ordered chain of operations, the base tonal
  stage first, then the operations a lookup table gives for the preset name. In the
  \<open>filter\<close> property of a canvas context the operations are separated by spaces.\<close>

fun join_ops :: "string list \<Rightarrow> string" where
  "join_ops [] = []"
| "join_ops [x] = x"
| "join_ops (x # y # ys) = x @ '' '' @ join_ops (y # ys)"

definition base_stage :: "EditorState \<Rightarrow> string list" where
  "base_stage s =
     [''brightness('' @ number_text (brightness s) @ ''%)'',
      ''contrast('' @ number_text (contrast s) @ ''%)'',
      ''saturate('' @ number_text (saturation s) @ ''%)'']"

definition preset_table :: "(string \<times> string list) list" where
  "preset_table =
     [(''grayscale'', [''grayscale(100%)'']),
      (''sepia'', [''sepia(100%)'']),
      (''invert'', [''invert(100%)'']),
      (''warm'', [''sepia(30%)'', ''saturate(140%)'']),
      (''cool'', [''hue-rotate(180deg)'', ''opacity(90%)'']),
      (''vintage'', [''sepia(40%)'', ''saturate(150%)'', ''contrast(90%)'', ''brightness(110%)'']),
      (''bw-film'', [''grayscale(100%)'', ''contrast(120%)'', ''brightness(90%)'']),
      (''neo-noir'', [''contrast(140%)'', ''brightness(80%)'', ''saturate(80%)'']),
      (''polaroid'', [''contrast(80%)'', ''brightness(120%)'', ''saturate(120%)'', ''sepia(20%)'']),
      (''dramatic'', [''contrast(150%)'', ''brightness(90%)''])]"

definition preset_stage :: "string \<Rightarrow> string list" where
  "preset_stage name = (case map_of preset_table name of None \<Rightarrow> [] | Some ops \<Rightarrow> ops)"

subsection \<open>Invariants of a session\<close>

text \<open>The history index points into the history.\<close>

definition index_valid :: "Editor \<Rightarrow> bool" where
  "index_valid e = (0 \<le> historyIndex e \<and> historyIndex e < int (length (history e)))"

text \<open>The canvas shows the working state whenever an image is loaded.\<close>

definition canvas_current :: "Editor \<Rightarrow> bool" where
  "canvas_current e = (canvas e = map_option (\<lambda>img. draw img (currentState e)) (loaded e))"

text \<open>What every event keeps: a valid index, the first entry, an up-to-date canvas.\<close>

definition session_ok :: "Editor \<Rightarrow> bool" where
  "session_ok e = (index_valid e \<and> history e ! 0 = initialState \<and> canvas_current e)"

section \<open>Properties\<close>

subsection \<open>Helper facts: geometry and filter string\<close>

lemma ratio_parts_1_1: "map Number_digits (split_on CHR '':'' ''1:1'') = [1, 1]"
  by (simp add: Number_digits_def digit_val_def)

lemma ratio_parts_4_3: "map Number_digits (split_on CHR '':'' ''4:3'') = [4, 3]"
  by (simp add: Number_digits_def digit_val_def)

lemma ratio_parts_16_9: "map Number_digits (split_on CHR '':'' ''16:9'') = [16, 9]"
  by (simp add: Number_digits_def digit_val_def)

lemma js_rem_zero_iff: "js_rem a 180 = 0 \<longleftrightarrow> a mod 180 = 0"
  by (auto simp: js_rem_def sgn_if zmod_zminus1_eq_if split: if_splits)

lemma crop_window_eq_spec:
  assumes "cr \<in> set ratios"
  shows "crop_window W H cr = spec_crop W H cr"
proof -
  from assms consider "cr = ''original''" | "cr = ''1:1''" | "cr = ''4:3''" | "cr = ''16:9''"
    by (auto simp: ratios_def)
  then show ?thesis
  proof cases
    case 1
    then show ?thesis by (simp add: crop_window_def spec_crop_def)
  next
    case 2
    then show ?thesis
      by (simp add: crop_window_def spec_crop_def spec_components_def Let_def
            ratio_parts_1_1 [simplified])
  next
    case 3
    then show ?thesis
      by (simp add: crop_window_def spec_crop_def spec_components_def Let_def
            ratio_parts_4_3 [simplified])
  next
    case 4
    then show ?thesis
      by (simp add: crop_window_def spec_crop_def spec_components_def Let_def
            ratio_parts_16_9 [simplified])
  qed
qed

lemma canvas_size_eq_spec: "canvas_size c rot = spec_bounding_box c rot"
  by (simp add: canvas_size_def spec_bounding_box_def isRotated_def js_rem_zero_iff)

lemma draw_source: "cv_source (draw (W, H) s) = crop_window W H (cropRatio s)"
  by (simp add: draw_def Let_def)

lemma draw_size:
  "(cv_width (draw (W, H) s), cv_height (draw (W, H) s)) =
     canvas_size (crop_window W H (cropRatio s)) (rotation s)"
  by (simp add: draw_def Let_def)

lemma crop_example:
  "crop_window 1000 500 ''1:1'' = \<lparr>cropX = 250, cropY = 0, cropW = 500, cropH = 500\<rparr>"
  by (simp add: crop_window_eq_spec ratios_def spec_crop_def spec_components_def)

lemma rot_example:
  "crop_window 800 600 ''original'' = \<lparr>cropX = 0, cropY = 0, cropW = 800, cropH = 600\<rparr>
   \<and> canvas_size (crop_window 800 600 ''original'') 90 = (600, 800)
   \<and> canvas_size (crop_window 800 600 ''original'') 180 = (800, 600)"
  by (simp add: crop_window_eq_spec ratios_def spec_crop_def canvas_size_eq_spec
        spec_bounding_box_def)

lemma crop_inside_wide:
  fixes W H r :: rat
  assumes "0 < W" "0 < H" "0 < r" "W / H > r"
  shows "0 \<le> (W - H * r) / 2" "(W - H * r) / 2 + H * r \<le> W" "0 < H * r" "H * r / H = r"
  using assms by (simp_all add: field_simps)

lemma crop_inside_tall:
  fixes W H r :: rat
  assumes "0 < W" "0 < H" "0 < r" "\<not> W / H > r"
  shows "0 \<le> (H - W / r) / 2" "(H - W / r) / 2 + W / r \<le> H" "0 < W / r" "W / (W / r) = r"
  using assms by (simp_all add: field_simps)

lemma filterString_chain:
  "filterString s = join_ops (base_stage s @ preset_stage (filterPreset s))"
  by (simp add: filterString_def base_stage_def preset_stage_def preset_table_def Let_def)

lemma filterString_base_first: "prefix (join_ops (base_stage s)) (filterString s)"
  by (simp add: filterString_def base_stage_def Let_def)

lemma digit_chars:
  "char_of (48::nat) = CHR ''0''" "char_of (49::nat) = CHR ''1''" "char_of (50::nat) = CHR ''2''"
  "char_of (51::nat) = CHR ''3''" "char_of (52::nat) = CHR ''4''" "char_of (53::nat) = CHR ''5''"
  "char_of (54::nat) = CHR ''6''" "char_of (55::nat) = CHR ''7''" "char_of (56::nat) = CHR ''8''"
  "char_of (57::nat) = CHR ''9''"
  by code_simp+

lemma draw_filter: "cv_filter (draw img s) = filterString s"
  by (simp add: draw_def Let_def)

lemma crop_window_parsed:
  assumes "cr \<noteq> ''original''" and "split_on CHR '':'' cr = a # b # rest"
  shows "crop_window W H cr = centred_crop W H (Number_digits a / Number_digits b)"
  using assms by (simp add: crop_window_def centred_crop_def Let_def)

lemma filterString_unknown:
  "name \<notin> set filters \<Longrightarrow> filterPreset s = name \<Longrightarrow> filterString s = join_ops (base_stage s)"
  by (simp add: filters_def filterString_def base_stage_def Let_def)

subsection \<open>Helper facts: handlers, effects and events\<close>

lemma spread_full: "spread prev (full s) = s"
  by (simp add: spread_def full_def)

lemma drawEffect_fields:
  "history (drawEffect e) = history e"
  "historyIndex (drawEffect e) = historyIndex e"
  "currentState (drawEffect e) = currentState e"
  "loaded (drawEffect e) = loaded e"
  "canvas (drawEffect e) = (case loaded e of None \<Rightarrow> canvas e | Some img \<Rightarrow> Some (draw img (currentState e)))"
  by (simp_all add: drawEffect_def split: option.splits)

lemma drawEffect_idem: "drawEffect (drawEffect e) = drawEffect e"
  by (simp add: drawEffect_def split: option.splits)

lemma canvas_current_drawEffect: "canvas_current e \<Longrightarrow> drawEffect e = e"
  by (cases "loaded e") (simp_all add: canvas_current_def drawEffect_def)

lemma drawEffect_canvas_current:
  "loaded e = None \<Longrightarrow> canvas e = None \<Longrightarrow> canvas_current (drawEffect e)"
  "loaded e \<noteq> None \<Longrightarrow> canvas_current (drawEffect e)"
  by (auto simp: canvas_current_def drawEffect_def split: option.splits)

lemma canvas_current_step:
  "canvas_current e \<Longrightarrow> loaded e' = loaded e \<Longrightarrow> canvas e' = canvas e \<Longrightarrow>
     canvas_current (drawEffect e')"
  by (cases "loaded e") (auto simp: canvas_current_def drawEffect_def)

lemma syncEffect_valid:
  "index_valid e \<Longrightarrow>
     syncEffect e = Inr (e\<lparr>currentState := history e ! nat (historyIndex e)\<rparr>)"
  by (simp add: syncEffect_def at_index_def index_valid_def)

lemma index_valid_nat:
  assumes "index_valid e"
  obtains n where "historyIndex e = int n" and "n < length (history e)"
proof -
  have "historyIndex e = int (nat (historyIndex e))" "nat (historyIndex e) < length (history e)"
    using assms by (simp_all add: index_valid_def nat_less_iff)
  then show ?thesis by (rule that)
qed

lemma take_Suc_length: "n < length xs \<Longrightarrow> length (take (Suc n) xs) = Suc n"
  by simp

lemma pushToHistory_fields:
  assumes "index_valid e"
  shows "history (pushToHistory e s) = take (nat (historyIndex e) + 1) (history e) @ [s]"
    and "historyIndex (pushToHistory e s) = historyIndex e + 1"
    and "currentState (pushToHistory e s) = currentState e"
    and "loaded (pushToHistory e s) = loaded e"
    and "canvas (pushToHistory e s) = canvas e"
proof -
  from assms obtain n where n: "historyIndex e = int n" "n < length (history e)"
    by (rule index_valid_nat)
  have nn: "nat (int n + 1) = Suc n" by arith
  have sl: "slice0 (history e) (int n + 1) = take (Suc n) (history e)"
    unfolding slice0_def nn by simp
  show "history (pushToHistory e s) = take (nat (historyIndex e) + 1) (history e) @ [s]"
    by (simp add: pushToHistory_def Let_def sl n(1))
  show "historyIndex (pushToHistory e s) = historyIndex e + 1"
    by (simp add: pushToHistory_def Let_def sl take_Suc_length [OF n(2)] n(1) del: length_take)
  show "currentState (pushToHistory e s) = currentState e"
    "loaded (pushToHistory e s) = loaded e" "canvas (pushToHistory e s) = canvas e"
    by (simp_all add: pushToHistory_def Let_def)
qed

lemma pushToHistory_valid:
  assumes "index_valid e"
  shows "index_valid (pushToHistory e s)"
proof -
  from assms obtain n where n: "historyIndex e = int n" "n < length (history e)"
    by (rule index_valid_nat)
  show ?thesis
    unfolding index_valid_def pushToHistory_fields [OF assms]
    by (simp add: n(1) take_Suc_length [OF n(2)] del: length_take)
qed

lemma pushToHistory_current:
  assumes "index_valid e"
  shows "history (pushToHistory e s) ! nat (historyIndex (pushToHistory e s)) = s"
proof -
  from assms obtain n where n: "historyIndex e = int n" "n < length (history e)"
    by (rule index_valid_nat)
  have "(take (Suc n) (history e) @ [s]) ! length (take (Suc n) (history e)) = s"
    by (rule nth_append_length)
  then have "(take (Suc n) (history e) @ [s]) ! Suc n = s"
    by (simp only: take_Suc_length [OF n(2)])
  then show ?thesis
    unfolding pushToHistory_fields [OF assms] by (simp add: n(1) nat_add_distrib)
qed

lemma pushToHistory_first:
  assumes "index_valid e"
  shows "history (pushToHistory e s) ! 0 = history e ! 0"
proof -
  from assms obtain n where n: "historyIndex e = int n" "n < length (history e)"
    by (rule index_valid_nat)
  then have "history e \<noteq> []" by auto
  then show ?thesis
    unfolding pushToHistory_fields [OF assms] by (simp add: nth_append)
qed

lemma fire_Commit:
  assumes "index_valid e"
  shows "fire e (Commit p) =
     Inr (drawEffect (pushToHistory (e\<lparr>currentState := spread (currentState e) p\<rparr>)
            (spread (currentState e) p)))"
proof -
  let ?s = "spread (currentState e) p"
  let ?e1 = "e\<lparr>currentState := ?s\<rparr>"
  have v1: "index_valid ?e1" using assms by (simp add: index_valid_def)
  have v2: "index_valid (pushToHistory ?e1 ?s)" by (rule pushToHistory_valid [OF v1])
  have cur: "history (pushToHistory ?e1 ?s) ! nat (historyIndex (pushToHistory ?e1 ?s)) = ?s"
    by (rule pushToHistory_current [OF v1])
  have same: "(pushToHistory ?e1 ?s)\<lparr>currentState := ?s\<rparr> = pushToHistory ?e1 ?s"
    by (simp add: pushToHistory_def Let_def)
  show ?thesis
    by (simp add: after_render_def commitChange_def Let_def syncEffect_valid [OF v2] cur same)
qed

lemma fire_Undo_pos:
  assumes "index_valid e" "0 < historyIndex e"
  shows "fire e Undo =
     Inr (drawEffect (e\<lparr>historyIndex := historyIndex e - 1,
                         currentState := history e ! nat (historyIndex e - 1)\<rparr>))"
proof -
  have v: "index_valid (e\<lparr>historyIndex := historyIndex e - 1\<rparr>)"
    using assms by (simp add: index_valid_def)
  show ?thesis
    using assms by (simp add: after_render_def handleUndo_def syncEffect_valid [OF v])
qed

lemma fire_Undo_zero: "historyIndex e \<le> 0 \<Longrightarrow> fire e Undo = Inr (drawEffect e)"
  by (simp add: after_render_def handleUndo_def)

lemma fire_Redo_inside:
  assumes "index_valid e" "historyIndex e < int (length (history e)) - 1"
  shows "fire e Redo =
     Inr (drawEffect (e\<lparr>historyIndex := historyIndex e + 1,
                         currentState := history e ! nat (historyIndex e + 1)\<rparr>))"
proof -
  have v: "index_valid (e\<lparr>historyIndex := historyIndex e + 1\<rparr>)"
    using assms by (simp add: index_valid_def)
  show ?thesis
    using assms by (simp add: after_render_def handleRedo_def syncEffect_valid [OF v])
qed

lemma fire_Redo_end:
  "int (length (history e)) - 1 \<le> historyIndex e \<Longrightarrow> fire e Redo = Inr (drawEffect e)"
  by (simp add: after_render_def handleRedo_def)

lemma fire_LiveUpdate:
  "fire e (LiveUpdate p) = Inr (drawEffect (e\<lparr>currentState := spread (currentState e) p\<rparr>))"
  by (simp add: after_render_def updateCurrentState_def)

lemma fire_ImageLoaded:
  "fire e (ImageLoaded w h) = Inr (drawEffect (e\<lparr>loaded := Some (w, h)\<rparr>))"
  by (simp add: after_render_def)

lemma session_ok_open: "session_ok (open_editor img)"
  by (cases img)
     (simp_all add: session_ok_def index_valid_def canvas_current_def open_editor_def drawEffect_def)

lemma session_ok_drawEffect:
  assumes "index_valid e" "history e ! 0 = initialState" "canvas_current (drawEffect e)"
  shows "session_ok (drawEffect e)"
  using assms by (simp add: session_ok_def index_valid_def drawEffect_fields)

lemma fire_ok:
  assumes "session_ok e"
  shows "\<exists>e'. fire e ev = Inr e' \<and> session_ok e'"
proof -
  have v: "index_valid e" and f: "history e ! 0 = initialState" and c: "canvas_current e"
    using assms by (simp_all add: session_ok_def)
  show ?thesis
  proof (cases ev)
    case Undo
    show ?thesis
    proof (cases "0 < historyIndex e")
      case True
      let ?e' = "e\<lparr>historyIndex := historyIndex e - 1,
                    currentState := history e ! nat (historyIndex e - 1)\<rparr>"
      have "index_valid ?e'" using v True by (simp add: index_valid_def)
      moreover have "history ?e' ! 0 = initialState" using f by simp
      moreover have "canvas_current (drawEffect ?e')" by (rule canvas_current_step [OF c]) simp_all
      ultimately have "session_ok (drawEffect ?e')" by (rule session_ok_drawEffect)
      then show ?thesis using Undo fire_Undo_pos [OF v True] by simp
    next
      case False
      then have "fire e Undo = Inr e"
        using fire_Undo_zero [of e] canvas_current_drawEffect [OF c] by simp
      then show ?thesis using Undo assms by simp
    qed
  next
    case Redo
    show ?thesis
    proof (cases "historyIndex e < int (length (history e)) - 1")
      case True
      let ?e' = "e\<lparr>historyIndex := historyIndex e + 1,
                    currentState := history e ! nat (historyIndex e + 1)\<rparr>"
      have "index_valid ?e'" using v True by (simp add: index_valid_def)
      moreover have "history ?e' ! 0 = initialState" using f by simp
      moreover have "canvas_current (drawEffect ?e')" by (rule canvas_current_step [OF c]) simp_all
      ultimately have "session_ok (drawEffect ?e')" by (rule session_ok_drawEffect)
      then show ?thesis using Redo fire_Redo_inside [OF v True] by simp
    next
      case False
      then have "fire e Redo = Inr e"
        using fire_Redo_end [of e] canvas_current_drawEffect [OF c] by simp
      then show ?thesis using Redo assms by simp
    qed
  next
    case (LiveUpdate p)
    let ?e' = "e\<lparr>currentState := spread (currentState e) p\<rparr>"
    have "index_valid ?e'" using v by (simp add: index_valid_def)
    moreover have "history ?e' ! 0 = initialState" using f by simp
    moreover have "canvas_current (drawEffect ?e')" by (rule canvas_current_step [OF c]) simp_all
    ultimately have "session_ok (drawEffect ?e')" by (rule session_ok_drawEffect)
    then show ?thesis using LiveUpdate fire_LiveUpdate by simp
  next
    case (Commit p)
    let ?s = "spread (currentState e) p"
    let ?e1 = "e\<lparr>currentState := ?s\<rparr>"
    let ?e' = "pushToHistory ?e1 ?s"
    have v1: "index_valid ?e1" using v by (simp add: index_valid_def)
    have "index_valid ?e'" by (rule pushToHistory_valid [OF v1])
    moreover have "history ?e' ! 0 = initialState" using f pushToHistory_first [OF v1] by simp
    moreover have "canvas_current (drawEffect ?e')"
      by (rule canvas_current_step [OF c]) (simp_all add: pushToHistory_fields [OF v1])
    ultimately have "session_ok (drawEffect ?e')" by (rule session_ok_drawEffect)
    then show ?thesis using Commit fire_Commit [OF v] by simp
  next
    case (ImageLoaded w h)
    let ?e' = "e\<lparr>loaded := Some (w, h)\<rparr>"
    have "index_valid ?e'" using v by (simp add: index_valid_def)
    moreover have "history ?e' ! 0 = initialState" using f by simp
    moreover have "canvas_current (drawEffect ?e')" by (rule drawEffect_canvas_current(2)) simp
    ultimately have "session_ok (drawEffect ?e')" by (rule session_ok_drawEffect)
    then show ?thesis using ImageLoaded fire_ImageLoaded by simp
  qed
qed

lemma run_ok: "session_ok e \<Longrightarrow> \<exists>e'. run e evs = Inr e' \<and> session_ok e'"
proof (induction evs arbitrary: e)
  case Nil
  then show ?case by simp
next
  case (Cons ev evs)
  from fire_ok [OF Cons.prems] obtain e1 where e1: "fire e ev = Inr e1" "session_ok e1"
    by blast
  from Cons.IH [OF e1(2)] show ?case using e1(1) by simp
qed

text \<open>The definitions that evaluate a run of events on a concrete session.\<close>

lemmas eval_defs =
  open_editor_def after_render_def commitChange_def pushToHistory_def updateCurrentState_def
  handleUndo_def handleRedo_def syncEffect_def at_index_def slice0_def drawEffect_def
  spread_def no_change_def Let_def

subsection \<open>History\<close>

text \<open>C1. Committing while the cursor is before the last entry discards the snapshots after
  the cursor, appends the new state and moves the cursor to the new last index. After
  commits of \<open>s1\<close> to \<open>s5\<close>, two undos and a commit of \<open>s6\<close>, the history is
  \<open>[default, s1, s2, s3, s6]\<close>, and a redo then changes nothing.\<close>

theorem commit_truncates_branch:
  assumes "0 \<le> historyIndex e"
    and "historyIndex e < int (length (history e)) - 1"
  shows "history (pushToHistory e s) = take (nat (historyIndex e) + 1) (history e) @ [s]
     \<and> historyIndex (pushToHistory e s) = historyIndex e + 1
     \<and> historyIndex (pushToHistory e s) = int (length (history (pushToHistory e s))) - 1
     \<and> (\<exists>e'. run (open_editor img)
                 [Commit (full s1), Commit (full s2), Commit (full s3), Commit (full s4),
                  Commit (full s5), Undo, Undo, Commit (full s6)] = Inr e'
             \<and> history e' = [initialState, s1, s2, s3, s6]
             \<and> historyIndex e' = 4
             \<and> fire e' Redo = Inr e')"
proof -
  have v: "index_valid e" using assms by (simp add: index_valid_def)
  from v obtain n where n: "historyIndex e = int n" "n < length (history e)"
    by (rule index_valid_nat)
  have a: "history (pushToHistory e s) = take (nat (historyIndex e) + 1) (history e) @ [s]"
    and b: "historyIndex (pushToHistory e s) = historyIndex e + 1"
    by (rule pushToHistory_fields [OF v])+
  have c: "historyIndex (pushToHistory e s) = int (length (history (pushToHistory e s))) - 1"
    unfolding a b by (simp add: n(1) take_Suc_length [OF n(2)] del: length_take)
  define e' where "e' = drawEffect \<lparr>history = [initialState, s1, s2, s3, s6], historyIndex = 4,
                currentState = s6, loaded = img, canvas = canvas (open_editor img)\<rparr>"
  have d: "run (open_editor img)
           [Commit (full s1), Commit (full s2), Commit (full s3), Commit (full s4),
            Commit (full s5), Undo, Undo, Commit (full s6)] = Inr e'"
    unfolding e'_def
    by (cases img)
       (simp_all add: open_editor_def after_render_def commitChange_def pushToHistory_def
          handleUndo_def syncEffect_def at_index_def slice0_def drawEffect_def spread_full Let_def)
  have h: "history e' = [initialState, s1, s2, s3, s6]" and i: "historyIndex e' = 4"
    by (simp_all add: e'_def drawEffect_fields)
  have "fire e' Redo = Inr (drawEffect e')"
    by (rule fire_Redo_end) (simp add: h i)
  then have r: "fire e' Redo = Inr e'"
    by (simp only: e'_def drawEffect_idem)
  from a b c d h i r show ?thesis by blast
qed

theorem commit_truncates_branch_witness:
  "(0::int) \<le> 1
   \<and> (1::int) < int (length [initialState, initialState\<lparr>brightness := 110\<rparr>,
                               initialState\<lparr>brightness := 120\<rparr>]) - 1
   \<and> history (pushToHistory
        \<lparr>history = [initialState, initialState\<lparr>brightness := 110\<rparr>,
                     initialState\<lparr>brightness := 120\<rparr>],
         historyIndex = 1, currentState = initialState\<lparr>brightness := 110\<rparr>,
         loaded = None, canvas = None\<rparr>
        (initialState\<lparr>contrast := 90\<rparr>)) =
       [initialState, initialState\<lparr>brightness := 110\<rparr>, initialState\<lparr>contrast := 90\<rparr>]
   \<and> historyIndex (pushToHistory
        \<lparr>history = [initialState, initialState\<lparr>brightness := 110\<rparr>,
                     initialState\<lparr>brightness := 120\<rparr>],
         historyIndex = 1, currentState = initialState\<lparr>brightness := 110\<rparr>,
         loaded = None, canvas = None\<rparr>
        (initialState\<lparr>contrast := 90\<rparr>)) = 2"
  using commit_truncates_branch
    [of "\<lparr>history = [initialState, initialState\<lparr>brightness := 110\<rparr>,
                      initialState\<lparr>brightness := 120\<rparr>],
          historyIndex = 1, currentState = initialState\<lparr>brightness := 110\<rparr>,
          loaded = None, canvas = None\<rparr>"
        "initialState\<lparr>contrast := 90\<rparr>"]
  by simp

text \<open>C2. In every state reached from the opening of the editor by any sequence of events, the
  cursor is between 0 and the last index, the first entry of the history is the default
  state, an undo at cursor 0 and a redo at the last index change nothing, and undo and
  redo never fail (and never change the history).\<close>

theorem history_invariant:
  "\<exists>e. run (open_editor img) evs = Inr e
      \<and> 0 \<le> historyIndex e
      \<and> historyIndex e \<le> int (length (history e)) - 1
      \<and> at_index (history e) 0 = Some initialState
      \<and> (historyIndex e = 0 \<longrightarrow> fire e Undo = Inr e)
      \<and> (historyIndex e = int (length (history e)) - 1 \<longrightarrow> fire e Redo = Inr e)
      \<and> (\<exists>e'. fire e Undo = Inr e' \<and> history e' = history e)
      \<and> (\<exists>e'. fire e Redo = Inr e' \<and> history e' = history e)"
proof -
  from run_ok [OF session_ok_open] obtain e
    where e: "run (open_editor img) evs = Inr e" and ok: "session_ok e"
    by blast
  have v: "index_valid e" and f: "history e ! 0 = initialState" and c: "canvas_current e"
    using ok by (simp_all add: session_ok_def)
  have d: "drawEffect e = e" by (rule canvas_current_drawEffect [OF c])
  have 1: "0 \<le> historyIndex e" "historyIndex e \<le> int (length (history e)) - 1"
    using v by (simp_all add: index_valid_def)
  have 2: "at_index (history e) 0 = Some initialState"
    using v f by (auto simp: at_index_def index_valid_def)
  have 3: "historyIndex e = 0 \<longrightarrow> fire e Undo = Inr e"
    using fire_Undo_zero [of e] d by simp
  have 4: "historyIndex e = int (length (history e)) - 1 \<longrightarrow> fire e Redo = Inr e"
    using fire_Redo_end [of e] d by simp
  have 5: "\<exists>e'. fire e Undo = Inr e' \<and> history e' = history e"
  proof (cases "0 < historyIndex e")
    case True
    show ?thesis
      unfolding fire_Undo_pos [OF v True] by (simp add: drawEffect_fields)
  next
    case False
    then show ?thesis using fire_Undo_zero [of e] d by simp
  qed
  have 6: "\<exists>e'. fire e Redo = Inr e' \<and> history e' = history e"
  proof (cases "historyIndex e < int (length (history e)) - 1")
    case True
    show ?thesis
      unfolding fire_Redo_inside [OF v True] by (simp add: drawEffect_fields)
  next
    case False
    then show ?thesis using fire_Redo_end [of e] d by simp
  qed
  from e 1 2 3 4 5 6 show ?thesis by blast
qed

theorem history_invariant_witness:
  "run (open_editor None) [Commit (full (initialState\<lparr>brightness := 120\<rparr>)), Undo, Undo] =
     Inr \<lparr>history = [initialState, initialState\<lparr>brightness := 120\<rparr>], historyIndex = 0,
          currentState = initialState, loaded = None, canvas = None\<rparr>
   \<and> fire \<lparr>history = [initialState, initialState\<lparr>brightness := 120\<rparr>], historyIndex = 0,
          currentState = initialState, loaded = None, canvas = None\<rparr> Undo =
     Inr \<lparr>history = [initialState, initialState\<lparr>brightness := 120\<rparr>], historyIndex = 0,
          currentState = initialState, loaded = None, canvas = None\<rparr>"
  using history_invariant
    [of None "[Commit (full (initialState\<lparr>brightness := 120\<rparr>)), Undo, Undo]"]
  by (simp add: open_editor_def after_render_def commitChange_def pushToHistory_def
        handleUndo_def syncEffect_def at_index_def slice0_def drawEffect_def spread_full Let_def)

subsection \<open>Live state, commit and export\<close>

text \<open>C3, as the specification states it, fails. After two live updates the working state
  carries both changes, so the second one was merged onto the live state and not onto
  \<open>history[cursor]\<close>; and an undo at cursor 0 after a live update keeps the live state.\<close>

theorem live_update_counterexample:
  "run (open_editor None)
      [LiveUpdate (no_change\<lparr>p_brightness := Some 120\<rparr>),
       LiveUpdate (no_change\<lparr>p_contrast := Some 130\<rparr>)] =
     Inr \<lparr>history = [initialState], historyIndex = 0,
          currentState = initialState\<lparr>brightness := 120, contrast := 130\<rparr>,
          loaded = None, canvas = None\<rparr>
   \<and> at_index [initialState] 0 = Some initialState
   \<and> spread initialState (no_change\<lparr>p_contrast := Some 130\<rparr>) \<noteq>
       initialState\<lparr>brightness := 120, contrast := 130\<rparr>
   \<and> run (open_editor None) [LiveUpdate (no_change\<lparr>p_brightness := Some 120\<rparr>), Undo] =
     Inr \<lparr>history = [initialState], historyIndex = 0,
          currentState = initialState\<lparr>brightness := 120\<rparr>,
          loaded = None, canvas = None\<rparr>
   \<and> initialState\<lparr>brightness := 120\<rparr> \<noteq> initialState"
  by (simp add: eval_defs initialState_def)

text \<open>C3, amended. A live update merges the partial state onto the current working state
  (which is \<open>history[cursor]\<close> when no live state is active) and redraws the canvas from
  it; the history, the cursor and the image are unchanged. With the cursor above 0, a
  following undo gives exactly the state an undo without the live update gives: the
  cursor moves down by one and the working state is the history entry there. With the
  cursor at 0 the undo changes nothing, and the live state stays.\<close>

theorem live_update_frame:
  assumes "0 \<le> historyIndex e" and "historyIndex e < int (length (history e))"
  shows "\<exists>e1. fire e (LiveUpdate p) = Inr e1
      \<and> history e1 = history e
      \<and> historyIndex e1 = historyIndex e
      \<and> loaded e1 = loaded e
      \<and> currentState e1 = spread (currentState e) p
      \<and> canvas e1 =
          (case loaded e of None \<Rightarrow> canvas e
           | Some img \<Rightarrow> Some (draw img (spread (currentState e) p)))
      \<and> (0 < historyIndex e \<longrightarrow>
           (\<exists>e2. fire e1 Undo = Inr e2
              \<and> fire e Undo = Inr e2
              \<and> history e2 = history e
              \<and> historyIndex e2 = historyIndex e - 1
              \<and> at_index (history e) (historyIndex e - 1) = Some (currentState e2)))
      \<and> (historyIndex e = 0 \<longrightarrow> fire e1 Undo = Inr e1)"
proof -
  define e1 where "e1 = drawEffect (e\<lparr>currentState := spread (currentState e) p\<rparr>)"
  have v: "index_valid e" using assms by (simp add: index_valid_def)
  have v1: "index_valid e1" using assms by (simp add: index_valid_def e1_def drawEffect_fields)
  have f: "fire e (LiveUpdate p) = Inr e1" by (simp only: fire_LiveUpdate e1_def)
  have flds: "history e1 = history e" "historyIndex e1 = historyIndex e" "loaded e1 = loaded e"
    "currentState e1 = spread (currentState e) p"
    "canvas e1 = (case loaded e of None \<Rightarrow> canvas e
           | Some img \<Rightarrow> Some (draw img (spread (currentState e) p)))"
    by (simp_all add: e1_def drawEffect_fields split: option.split)
  have u: "0 < historyIndex e \<longrightarrow>
           (\<exists>e2. fire e1 Undo = Inr e2
              \<and> fire e Undo = Inr e2
              \<and> history e2 = history e
              \<and> historyIndex e2 = historyIndex e - 1
              \<and> at_index (history e) (historyIndex e - 1) = Some (currentState e2))"
  proof
    assume pos: "0 < historyIndex e"
    then have pos1: "0 < historyIndex e1" by (simp add: flds)
    define e2 where "e2 = drawEffect (e\<lparr>historyIndex := historyIndex e - 1,
                         currentState := history e ! nat (historyIndex e - 1)\<rparr>)"
    have a: "fire e Undo = Inr e2" by (simp only: fire_Undo_pos [OF v pos] e2_def)
    have "drawEffect (e1\<lparr>historyIndex := historyIndex e1 - 1,
                         currentState := history e1 ! nat (historyIndex e1 - 1)\<rparr>) = e2"
      by (cases "loaded e") (simp_all add: e1_def e2_def drawEffect_def)
    then have b: "fire e1 Undo = Inr e2" by (simp only: fire_Undo_pos [OF v1 pos1])
    have c: "history e2 = history e" "historyIndex e2 = historyIndex e - 1"
      "currentState e2 = history e ! nat (historyIndex e - 1)"
      by (simp_all add: e2_def drawEffect_fields)
    have d: "at_index (history e) (historyIndex e - 1) = Some (currentState e2)"
      using assms pos by (simp add: at_index_def c)
    from a b c d show "\<exists>e2. fire e1 Undo = Inr e2
              \<and> fire e Undo = Inr e2
              \<and> history e2 = history e
              \<and> historyIndex e2 = historyIndex e - 1
              \<and> at_index (history e) (historyIndex e - 1) = Some (currentState e2)"
      by blast
  qed
  have z: "historyIndex e = 0 \<longrightarrow> fire e1 Undo = Inr e1"
  proof
    assume "historyIndex e = 0"
    then have "historyIndex e1 \<le> 0" by (simp add: flds)
    then have "fire e1 Undo = Inr (drawEffect e1)" by (rule fire_Undo_zero)
    then show "fire e1 Undo = Inr e1" by (simp only: e1_def drawEffect_idem)
  qed
  from f flds u z show ?thesis by blast
qed

theorem live_update_frame_witness:
  "(0::int) \<le> 1 \<and> (1::int) < int (length [initialState, initialState\<lparr>brightness := 110\<rparr>])
   \<and> fire \<lparr>history = [initialState, initialState\<lparr>brightness := 110\<rparr>], historyIndex = 1,
            currentState = initialState\<lparr>brightness := 110\<rparr>, loaded = None, canvas = None\<rparr>
        (LiveUpdate (no_change\<lparr>p_brightness := Some 120\<rparr>)) =
      Inr \<lparr>history = [initialState, initialState\<lparr>brightness := 110\<rparr>], historyIndex = 1,
            currentState = initialState\<lparr>brightness := 120\<rparr>, loaded = None, canvas = None\<rparr>
   \<and> fire \<lparr>history = [initialState, initialState\<lparr>brightness := 110\<rparr>], historyIndex = 1,
            currentState = initialState\<lparr>brightness := 120\<rparr>, loaded = None, canvas = None\<rparr> Undo =
      Inr \<lparr>history = [initialState, initialState\<lparr>brightness := 110\<rparr>], historyIndex = 0,
            currentState = initialState, loaded = None, canvas = None\<rparr>"
  using live_update_frame
    [of "\<lparr>history = [initialState, initialState\<lparr>brightness := 110\<rparr>], historyIndex = 1,
            currentState = initialState\<lparr>brightness := 110\<rparr>, loaded = None, canvas = None\<rparr>"
        "no_change\<lparr>p_brightness := Some 120\<rparr>"]
  by (simp add: eval_defs initialState_def)

text \<open>C4, as the specification states it, fails. After a live update of the brightness to 120,
  a commit with no argument records brightness 120, while merging the empty update onto
  \<open>history[cursor]\<close> would record the default state.\<close>

theorem commit_base_counterexample:
  "run (open_editor None) [LiveUpdate (no_change\<lparr>p_brightness := Some 120\<rparr>), Commit no_change] =
     Inr \<lparr>history = [initialState, initialState\<lparr>brightness := 120\<rparr>], historyIndex = 1,
          currentState = initialState\<lparr>brightness := 120\<rparr>, loaded = None, canvas = None\<rparr>
   \<and> at_index [initialState] 0 = Some initialState
   \<and> spread initialState no_change = initialState
   \<and> initialState\<lparr>brightness := 120\<rparr> \<noteq> initialState"
  by (simp add: eval_defs initialState_def)

text \<open>C4, amended. A commit forms the state it records by merging the partial state onto the
  current working state (the live state when there is one, \<open>history[cursor]\<close> otherwise),
  drops the history after the cursor, appends the new state and moves the cursor to it;
  afterwards the working state is the newly committed snapshot (no live state is left)
  and the canvas is drawn from it.\<close>

theorem commit_merges_onto_working_state:
  assumes "0 \<le> historyIndex e" and "historyIndex e < int (length (history e))"
  shows "\<exists>e'. fire e (Commit p) = Inr e'
      \<and> history e' = take (nat (historyIndex e) + 1) (history e) @ [spread (currentState e) p]
      \<and> historyIndex e' = historyIndex e + 1
      \<and> currentState e' = spread (currentState e) p
      \<and> at_index (history e') (historyIndex e') = Some (currentState e')
      \<and> loaded e' = loaded e
      \<and> canvas e' =
          (case loaded e of None \<Rightarrow> canvas e
           | Some img \<Rightarrow> Some (draw img (spread (currentState e) p)))"
proof -
  let ?s = "spread (currentState e) p"
  let ?e1 = "e\<lparr>currentState := ?s\<rparr>"
  define e' where "e' = drawEffect (pushToHistory ?e1 ?s)"
  have v: "index_valid e" using assms by (simp add: index_valid_def)
  have v1: "index_valid ?e1" using assms by (simp add: index_valid_def)
  have v2: "index_valid (pushToHistory ?e1 ?s)" by (rule pushToHistory_valid [OF v1])
  have f: "fire e (Commit p) = Inr e'" by (simp only: fire_Commit [OF v] e'_def)
  have h: "history e' = take (nat (historyIndex e) + 1) (history e) @ [?s]"
    and i: "historyIndex e' = historyIndex e + 1"
    and c: "currentState e' = ?s"
    and l: "loaded e' = loaded e"
    by (simp_all add: e'_def drawEffect_fields pushToHistory_fields [OF v1])
  have cv: "canvas e' = (case loaded e of None \<Rightarrow> canvas e
           | Some img \<Rightarrow> Some (draw img ?s))"
    by (simp add: e'_def drawEffect_fields pushToHistory_fields [OF v1] split: option.split)
  have "history e' ! nat (historyIndex e') = ?s"
    using pushToHistory_current [OF v1, of ?s] by (simp add: e'_def drawEffect_fields)
  moreover have "index_valid e'"
    using v2 by (simp add: index_valid_def e'_def drawEffect_fields)
  ultimately have a: "at_index (history e') (historyIndex e') = Some (currentState e')"
    by (simp add: at_index_def index_valid_def c)
  from f h i c a l cv show ?thesis by blast
qed

theorem commit_merges_onto_working_state_witness:
  "(0::int) \<le> 0 \<and> (0::int) < int (length [initialState])
   \<and> fire \<lparr>history = [initialState], historyIndex = 0,
            currentState = initialState\<lparr>brightness := 120\<rparr>, loaded = None, canvas = None\<rparr>
        (Commit (no_change\<lparr>p_contrast := Some 90\<rparr>)) =
      Inr \<lparr>history = [initialState, initialState\<lparr>brightness := 120, contrast := 90\<rparr>],
            historyIndex = 1,
            currentState = initialState\<lparr>brightness := 120, contrast := 90\<rparr>,
            loaded = None, canvas = None\<rparr>"
  using commit_merges_onto_working_state
    [of "\<lparr>history = [initialState], historyIndex = 0,
            currentState = initialState\<lparr>brightness := 120\<rparr>, loaded = None, canvas = None\<rparr>"
        "no_change\<lparr>p_contrast := Some 90\<rparr>"]
  by (simp add: eval_defs initialState_def)

text \<open>C5, as the specification states it, fails. With a live update of the brightness to 120
  not yet committed, the save encodes the canvas drawn from the live state (filter
  \<open>brightness(120%)\<close>) and not a rendering of \<open>history[cursor]\<close>, the default state.\<close>

theorem export_counterexample:
  "run (open_editor (Some (10, 10))) [LiveUpdate (no_change\<lparr>p_brightness := Some 120\<rparr>)] =
     Inr \<lparr>history = [initialState], historyIndex = 0,
          currentState = initialState\<lparr>brightness := 120\<rparr>,
          loaded = Some (10, 10),
          canvas = Some (draw (10, 10) (initialState\<lparr>brightness := 120\<rparr>))\<rparr>
   \<and> at_index [initialState] 0 = Some initialState
   \<and> encoded (handleSave
        \<lparr>history = [initialState], historyIndex = 0,
         currentState = initialState\<lparr>brightness := 120\<rparr>,
         loaded = Some (10, 10),
         canvas = Some (draw (10, 10) (initialState\<lparr>brightness := 120\<rparr>))\<rparr>) =
       Some (draw (10, 10) (initialState\<lparr>brightness := 120\<rparr>))
   \<and> cv_filter (draw (10, 10) (initialState\<lparr>brightness := 120\<rparr>)) =
       ''brightness(120%) contrast(100%) saturate(100%)''
   \<and> cv_filter (draw (10, 10) initialState) =
       ''brightness(100%) contrast(100%) saturate(100%)''
   \<and> draw (10, 10) (initialState\<lparr>brightness := 120\<rparr>) \<noteq> draw (10, 10) initialState"
proof -
  have a: "run (open_editor (Some (10, 10))) [LiveUpdate (no_change\<lparr>p_brightness := Some 120\<rparr>)] =
     Inr \<lparr>history = [initialState], historyIndex = 0,
          currentState = initialState\<lparr>brightness := 120\<rparr>,
          loaded = Some (10, 10),
          canvas = Some (draw (10, 10) (initialState\<lparr>brightness := 120\<rparr>))\<rparr>"
    by (simp add: eval_defs initialState_def)
  have b: "at_index [initialState] 0 = Some initialState" by (simp add: at_index_def)
  have c: "cv_filter (draw (10, 10) (initialState\<lparr>brightness := 120\<rparr>)) =
       ''brightness(120%) contrast(100%) saturate(100%)''"
    by (simp add: draw_filter filterString_def initialState_def number_text_def digits.simps
          digit_chars Let_def)
  have d: "cv_filter (draw (10, 10) initialState) =
       ''brightness(100%) contrast(100%) saturate(100%)''"
    by (simp add: draw_filter filterString_def initialState_def number_text_def digits.simps
          digit_chars Let_def)
  have e: "draw (10, 10) (initialState\<lparr>brightness := 120\<rparr>) \<noteq> draw (10, 10) initialState"
  proof
    assume "draw (10, 10) (initialState\<lparr>brightness := 120\<rparr>) = draw (10, 10) initialState"
    then have "cv_filter (draw (10, 10) (initialState\<lparr>brightness := 120\<rparr>)) =
               cv_filter (draw (10, 10) initialState)" by (rule arg_cong)
    then show False unfolding c d by simp
  qed
  from a b c d e show ?thesis by (simp add: handleSave_def)
qed

text \<open>C5, amended. In every state reached from the opening of the editor, the save encodes the
  canvas as last drawn, which is the rendering of the current working state (the live
  state when there is one, \<open>history[cursor]\<close> otherwise) when an image is loaded, as
  \<open>image/jpeg\<close> at quality 0.92.\<close>

theorem export_encodes_canvas:
  "\<exists>e. run (open_editor img0) evs = Inr e
      \<and> mime (handleSave e) = ''image/jpeg''
      \<and> quality (handleSave e) = 92 / 100
      \<and> encoded (handleSave e) = map_option (\<lambda>img. draw img (currentState e)) (loaded e)"
proof -
  from run_ok [OF session_ok_open] obtain e
    where e: "run (open_editor img0) evs = Inr e" and ok: "session_ok e"
    by blast
  have "canvas e = map_option (\<lambda>img. draw img (currentState e)) (loaded e)"
    using ok by (simp add: session_ok_def canvas_current_def)
  then have "encoded (handleSave e) = map_option (\<lambda>img. draw img (currentState e)) (loaded e)"
    by (simp add: handleSave_def)
  moreover have "mime (handleSave e) = ''image/jpeg''" "quality (handleSave e) = 92 / 100"
    by (simp_all add: handleSave_def)
  ultimately show ?thesis using e by blast
qed

subsection \<open>Values outside the documented ranges and sets\<close>

text \<open>C6, as the specification states it, fails. A live update with saturation 500 leaves
  saturation 500 in the working state, and the canvas is drawn with \<open>saturate(500%)\<close>.\<close>

theorem clamping_counterexample:
  "run (open_editor (Some (10, 10))) [LiveUpdate (no_change\<lparr>p_saturation := Some 500\<rparr>)] =
     Inr \<lparr>history = [initialState], historyIndex = 0,
          currentState = initialState\<lparr>saturation := 500\<rparr>,
          loaded = Some (10, 10),
          canvas = Some (draw (10, 10) (initialState\<lparr>saturation := 500\<rparr>))\<rparr>
   \<and> saturation (initialState\<lparr>saturation := 500\<rparr>) = 500
   \<and> saturation (initialState\<lparr>saturation := 500\<rparr>) \<noteq> 200
   \<and> cv_filter (draw (10, 10) (initialState\<lparr>saturation := 500\<rparr>)) =
       ''brightness(100%) contrast(100%) saturate(500%)''"
proof -
  have a: "run (open_editor (Some (10, 10))) [LiveUpdate (no_change\<lparr>p_saturation := Some 500\<rparr>)] =
     Inr \<lparr>history = [initialState], historyIndex = 0,
          currentState = initialState\<lparr>saturation := 500\<rparr>,
          loaded = Some (10, 10),
          canvas = Some (draw (10, 10) (initialState\<lparr>saturation := 500\<rparr>))\<rparr>"
    by (simp add: eval_defs initialState_def)
  have c: "cv_filter (draw (10, 10) (initialState\<lparr>saturation := 500\<rparr>)) =
       ''brightness(100%) contrast(100%) saturate(500%)''"
    by (simp add: draw_filter filterString_def initialState_def number_text_def digits.simps
          digit_chars Let_def)
  from a c show ?thesis by simp
qed

text \<open>C6, amended. A partial update is never rejected and its numeric fields are never clamped:
  after a live update or a commit, the brightness, contrast and saturation of the working
  state (and of the committed snapshot) are the values the update carries, and the canvas
  is drawn from that state.\<close>

theorem out_of_range_values_kept:
  assumes "0 \<le> historyIndex e" and "historyIndex e < int (length (history e))"
  shows "\<exists>e1 e2. fire e (LiveUpdate p) = Inr e1 \<and> fire e (Commit p) = Inr e2
      \<and> currentState e1 = spread (currentState e) p
      \<and> currentState e2 = spread (currentState e) p
      \<and> last (history e2) = spread (currentState e) p
      \<and> canvas e1 =
          (case loaded e of None \<Rightarrow> canvas e
           | Some img \<Rightarrow> Some (draw img (spread (currentState e) p)))
      \<and> canvas e2 =
          (case loaded e of None \<Rightarrow> canvas e
           | Some img \<Rightarrow> Some (draw img (spread (currentState e) p)))
      \<and> (\<forall>v. p_brightness p = Some v \<longrightarrow> brightness (spread (currentState e) p) = v)
      \<and> (\<forall>v. p_contrast p = Some v \<longrightarrow> contrast (spread (currentState e) p) = v)
      \<and> (\<forall>v. p_saturation p = Some v \<longrightarrow> saturation (spread (currentState e) p) = v)"
proof -
  let ?s = "spread (currentState e) p"
  let ?e0 = "e\<lparr>currentState := ?s\<rparr>"
  define e1 where "e1 = drawEffect ?e0"
  define e2 where "e2 = drawEffect (pushToHistory ?e0 ?s)"
  have v: "index_valid e" using assms by (simp add: index_valid_def)
  have v0: "index_valid ?e0" using assms by (simp add: index_valid_def)
  have f1: "fire e (LiveUpdate p) = Inr e1" by (simp only: fire_LiveUpdate e1_def)
  have f2: "fire e (Commit p) = Inr e2" by (simp only: fire_Commit [OF v] e2_def)
  have c1: "currentState e1 = ?s" by (simp add: e1_def drawEffect_fields)
  have c2: "currentState e2 = ?s"
    by (simp add: e2_def drawEffect_fields pushToHistory_fields [OF v0])
  have l2: "last (history e2) = ?s"
    by (simp add: e2_def drawEffect_fields pushToHistory_fields [OF v0])
  have k1: "canvas e1 = (case loaded e of None \<Rightarrow> canvas e | Some img \<Rightarrow> Some (draw img ?s))"
    by (simp add: e1_def drawEffect_fields split: option.split)
  have k2: "canvas e2 = (case loaded e of None \<Rightarrow> canvas e | Some img \<Rightarrow> Some (draw img ?s))"
    by (simp add: e2_def drawEffect_fields pushToHistory_fields [OF v0] split: option.split)
  have b: "\<forall>v. p_brightness p = Some v \<longrightarrow> brightness ?s = v"
    and c: "\<forall>v. p_contrast p = Some v \<longrightarrow> contrast ?s = v"
    and s: "\<forall>v. p_saturation p = Some v \<longrightarrow> saturation ?s = v"
    by (simp_all add: spread_def)
  from f1 f2 c1 c2 l2 k1 k2 b c s show ?thesis by blast
qed

theorem out_of_range_values_kept_witness:
  "(0::int) \<le> 0 \<and> (0::int) < int (length [initialState])
   \<and> fire \<lparr>history = [initialState], historyIndex = 0, currentState = initialState,
            loaded = None, canvas = None\<rparr>
        (LiveUpdate (no_change\<lparr>p_saturation := Some 500\<rparr>)) =
      Inr \<lparr>history = [initialState], historyIndex = 0,
            currentState = initialState\<lparr>saturation := 500\<rparr>, loaded = None, canvas = None\<rparr>
   \<and> fire \<lparr>history = [initialState], historyIndex = 0, currentState = initialState,
            loaded = None, canvas = None\<rparr>
        (Commit (no_change\<lparr>p_saturation := Some 500\<rparr>)) =
      Inr \<lparr>history = [initialState, initialState\<lparr>saturation := 500\<rparr>], historyIndex = 1,
            currentState = initialState\<lparr>saturation := 500\<rparr>, loaded = None, canvas = None\<rparr>"
  using out_of_range_values_kept
    [of "\<lparr>history = [initialState], historyIndex = 0, currentState = initialState,
            loaded = None, canvas = None\<rparr>"
        "no_change\<lparr>p_saturation := Some 500\<rparr>"]
  by (simp add: eval_defs initialState_def)

text \<open>C7, as the specification states it, fails. A commit with the filter preset \<open>foo\<close>, which
  is not one of the eleven presets, succeeds, records \<open>foo\<close> in the history and draws the
  canvas with the base filter only. A commit with the crop ratio \<open>3:2\<close>, which is not one of
  the four ratios, succeeds, records \<open>3:2\<close> in the history and draws the canvas with a crop
  of ratio 3:2 (10 by 20/3 at (0, 5/3) on a 10 by 10 image).\<close>

theorem unknown_values_counterexample:
  "run (open_editor (Some (10, 10))) [Commit (no_change\<lparr>p_filterPreset := Some ''foo''\<rparr>)] =
     Inr \<lparr>history = [initialState, initialState\<lparr>filterPreset := ''foo''\<rparr>], historyIndex = 1,
          currentState = initialState\<lparr>filterPreset := ''foo''\<rparr>,
          loaded = Some (10, 10),
          canvas = Some (draw (10, 10) (initialState\<lparr>filterPreset := ''foo''\<rparr>))\<rparr>
   \<and> ''foo'' \<notin> set filters
   \<and> cv_filter (draw (10, 10) (initialState\<lparr>filterPreset := ''foo''\<rparr>)) =
       ''brightness(100%) contrast(100%) saturate(100%)''
   \<and> run (open_editor (Some (10, 10))) [Commit (no_change\<lparr>p_cropRatio := Some ''3:2''\<rparr>)] =
     Inr \<lparr>history = [initialState, initialState\<lparr>cropRatio := ''3:2''\<rparr>], historyIndex = 1,
          currentState = initialState\<lparr>cropRatio := ''3:2''\<rparr>,
          loaded = Some (10, 10),
          canvas = Some (draw (10, 10) (initialState\<lparr>cropRatio := ''3:2''\<rparr>))\<rparr>
   \<and> ''3:2'' \<notin> set ratios
   \<and> cv_source (draw (10, 10) (initialState\<lparr>cropRatio := ''3:2''\<rparr>)) =
       \<lparr>cropX = 0, cropY = 5 / 3, cropW = 10, cropH = 20 / 3\<rparr>"
proof -
  have a: "run (open_editor (Some (10, 10))) [Commit (no_change\<lparr>p_filterPreset := Some ''foo''\<rparr>)] =
     Inr \<lparr>history = [initialState, initialState\<lparr>filterPreset := ''foo''\<rparr>], historyIndex = 1,
          currentState = initialState\<lparr>filterPreset := ''foo''\<rparr>,
          loaded = Some (10, 10),
          canvas = Some (draw (10, 10) (initialState\<lparr>filterPreset := ''foo''\<rparr>))\<rparr>"
    by (simp add: eval_defs initialState_def)
  have b: "''foo'' \<notin> set filters" by (simp add: filters_def)
  have c: "cv_filter (draw (10, 10) (initialState\<lparr>filterPreset := ''foo''\<rparr>)) =
       ''brightness(100%) contrast(100%) saturate(100%)''"
    by (simp add: draw_filter filterString_def initialState_def number_text_def digits.simps
          digit_chars Let_def)
  have d: "run (open_editor (Some (10, 10))) [Commit (no_change\<lparr>p_cropRatio := Some ''3:2''\<rparr>)] =
     Inr \<lparr>history = [initialState, initialState\<lparr>cropRatio := ''3:2''\<rparr>], historyIndex = 1,
          currentState = initialState\<lparr>cropRatio := ''3:2''\<rparr>,
          loaded = Some (10, 10),
          canvas = Some (draw (10, 10) (initialState\<lparr>cropRatio := ''3:2''\<rparr>))\<rparr>"
    by (simp add: eval_defs initialState_def)
  have e: "''3:2'' \<notin> set ratios" by (simp add: ratios_def)
  have f: "cv_source (draw (10, 10) (initialState\<lparr>cropRatio := ''3:2''\<rparr>)) =
       \<lparr>cropX = 0, cropY = 5 / 3, cropW = 10, cropH = 20 / 3\<rparr>"
    by (simp add: draw_source crop_window_def initialState_def Number_digits_def digit_val_def
          Let_def)
  from a b c d e f show ?thesis by simp
qed

text \<open>C7, amended. No update is rejected, whatever preset name or crop ratio it carries: a
  commit records the values in the working state and in the history as they are, and the
  canvas is drawn from that state. With a preset name outside the eleven presets the
  filter is the base stage only. A crop ratio outside the four ratios goes through the
  same parse as they do: for a label whose first two parts are decimal numbers, the second
  not 0, the source rectangle is the centred crop of that ratio.\<close>

theorem unknown_values_accepted:
  assumes "0 \<le> historyIndex e" and "historyIndex e < int (length (history e))"
  shows "\<exists>e'. fire e (Commit p) = Inr e'
      \<and> currentState e' = spread (currentState e) p
      \<and> last (history e') = spread (currentState e) p
      \<and> canvas e' =
          (case loaded e of None \<Rightarrow> canvas e
           | Some img \<Rightarrow> Some (draw img (currentState e')))
      \<and> (\<forall>name. p_filterPreset p = Some name \<and> name \<notin> set filters \<longrightarrow>
            filterPreset (currentState e') = name
            \<and> (\<forall>img. cv_filter (draw img (currentState e')) =
                   join_ops (base_stage (currentState e'))))
      \<and> (\<forall>r. p_cropRatio p = Some r \<and> r \<notin> set ratios \<longrightarrow>
            cropRatio (currentState e') = r
            \<and> (\<forall>W H a b rest.
                  0 < W \<and> 0 < H \<and> split_on CHR '':'' r = a # b # rest
                  \<and> decimal a \<and> decimal b \<and> Number_digits b \<noteq> 0 \<longrightarrow>
                  cv_source (draw (W, H) (currentState e')) =
                    centred_crop W H (Number_digits a / Number_digits b)))"
proof -
  let ?s = "spread (currentState e) p"
  let ?e0 = "e\<lparr>currentState := ?s\<rparr>"
  define e' where "e' = drawEffect (pushToHistory ?e0 ?s)"
  have v: "index_valid e" using assms by (simp add: index_valid_def)
  have v0: "index_valid ?e0" using assms by (simp add: index_valid_def)
  have f: "fire e (Commit p) = Inr e'" by (simp only: fire_Commit [OF v] e'_def)
  have c: "currentState e' = ?s"
    by (simp add: e'_def drawEffect_fields pushToHistory_fields [OF v0])
  have l: "last (history e') = ?s"
    by (simp add: e'_def drawEffect_fields pushToHistory_fields [OF v0])
  have k: "canvas e' = (case loaded e of None \<Rightarrow> canvas e
           | Some img \<Rightarrow> Some (draw img (currentState e')))"
    by (simp add: e'_def drawEffect_fields pushToHistory_fields [OF v0] split: option.split)
  have n: "\<forall>name. p_filterPreset p = Some name \<and> name \<notin> set filters \<longrightarrow>
            filterPreset (currentState e') = name
            \<and> (\<forall>img. cv_filter (draw img (currentState e')) =
                   join_ops (base_stage (currentState e')))"
  proof (intro allI impI, elim conjE)
    fix name
    assume p: "p_filterPreset p = Some name" and u: "name \<notin> set filters"
    have n1: "filterPreset ?s = name" using p by (simp add: spread_def)
    have "\<forall>img. cv_filter (draw img ?s) = join_ops (base_stage ?s)"
      unfolding draw_filter using filterString_unknown [OF u n1] by simp
    with n1 show "filterPreset (currentState e') = name
            \<and> (\<forall>img. cv_filter (draw img (currentState e')) =
                   join_ops (base_stage (currentState e')))"
      unfolding c by simp
  qed
  have r: "\<forall>r. p_cropRatio p = Some r \<and> r \<notin> set ratios \<longrightarrow>
            cropRatio (currentState e') = r
            \<and> (\<forall>W H a b rest.
                  0 < W \<and> 0 < H \<and> split_on CHR '':'' r = a # b # rest
                  \<and> decimal a \<and> decimal b \<and> Number_digits b \<noteq> 0 \<longrightarrow>
                  cv_source (draw (W, H) (currentState e')) =
                    centred_crop W H (Number_digits a / Number_digits b))"
  proof (intro allI impI, elim conjE)
    fix r
    assume p: "p_cropRatio p = Some r" and u: "r \<notin> set ratios"
    have r1: "cropRatio ?s = r" using p by (simp add: spread_def)
    have no: "r \<noteq> ''original''" using u by (auto simp: ratios_def)
    have "\<forall>W H a b rest.
                  0 < W \<and> 0 < H \<and> split_on CHR '':'' r = a # b # rest
                  \<and> decimal a \<and> decimal b \<and> Number_digits b \<noteq> 0 \<longrightarrow>
                  cv_source (draw (W, H) ?s) =
                    centred_crop W H (Number_digits a / Number_digits b)"
      by (simp add: draw_source r1 crop_window_parsed [OF no])
    with r1 show "cropRatio (currentState e') = r
            \<and> (\<forall>W H a b rest.
                  0 < W \<and> 0 < H \<and> split_on CHR '':'' r = a # b # rest
                  \<and> decimal a \<and> decimal b \<and> Number_digits b \<noteq> 0 \<longrightarrow>
                  cv_source (draw (W, H) (currentState e')) =
                    centred_crop W H (Number_digits a / Number_digits b))"
      unfolding c by simp
  qed
  from f c l k n r show ?thesis by blast
qed

theorem unknown_values_accepted_witness:
  "(0::int) \<le> 0 \<and> (0::int) < int (length [initialState])
   \<and> ''foo'' \<notin> set filters \<and> ''3:2'' \<notin> set ratios
   \<and> (0::nat) < 10 \<and> split_on CHR '':'' ''3:2'' = [''3'', ''2'']
   \<and> decimal ''3'' \<and> decimal ''2'' \<and> Number_digits ''2'' \<noteq> 0
   \<and> fire \<lparr>history = [initialState], historyIndex = 0, currentState = initialState,
            loaded = None, canvas = None\<rparr>
        (Commit (no_change\<lparr>p_filterPreset := Some ''foo'', p_cropRatio := Some ''3:2''\<rparr>)) =
      Inr \<lparr>history = [initialState, initialState\<lparr>cropRatio := ''3:2'', filterPreset := ''foo''\<rparr>],
            historyIndex = 1,
            currentState = initialState\<lparr>cropRatio := ''3:2'', filterPreset := ''foo''\<rparr>,
            loaded = None, canvas = None\<rparr>
   \<and> cv_filter (draw (10, 10) (initialState\<lparr>cropRatio := ''3:2'', filterPreset := ''foo''\<rparr>)) =
       join_ops (base_stage (initialState\<lparr>cropRatio := ''3:2'', filterPreset := ''foo''\<rparr>))
   \<and> cv_source (draw (10, 10) (initialState\<lparr>cropRatio := ''3:2'', filterPreset := ''foo''\<rparr>)) =
       \<lparr>cropX = 0, cropY = 5 / 3, cropW = 10, cropH = 20 / 3\<rparr>"
proof -
  let ?e = "\<lparr>history = [initialState], historyIndex = 0, currentState = initialState,
            loaded = None, canvas = None\<rparr>"
  let ?p = "no_change\<lparr>p_filterPreset := Some ''foo'', p_cropRatio := Some ''3:2''\<rparr>"
  let ?s = "initialState\<lparr>cropRatio := ''3:2'', filterPreset := ''foo''\<rparr>"
  have h: "(0::int) \<le> historyIndex ?e" "historyIndex ?e < int (length (history ?e))"
    by simp_all
  have pf: "p_filterPreset ?p = Some ''foo'' \<and> ''foo'' \<notin> set filters"
    by (simp add: filters_def)
  have pc: "p_cropRatio ?p = Some ''3:2'' \<and> ''3:2'' \<notin> set ratios"
    by (simp add: ratios_def)
  have sp: "split_on CHR '':'' ''3:2'' = [''3'', ''2'']" by simp
  have dec: "decimal ''3''" "decimal ''2''" "Number_digits ''2'' \<noteq> 0"
    by (simp_all add: decimal_def Number_digits_def digit_val_def)
  have ev: "fire ?e (Commit ?p) =
      Inr \<lparr>history = [initialState, ?s], historyIndex = 1, currentState = ?s,
            loaded = None, canvas = None\<rparr>"
    by (simp add: eval_defs initialState_def)
  from unknown_values_accepted [OF h, of ?p] obtain e'
    where f: "fire ?e (Commit ?p) = Inr e'"
      and n: "\<forall>name. p_filterPreset ?p = Some name \<and> name \<notin> set filters \<longrightarrow>
            filterPreset (currentState e') = name
            \<and> (\<forall>img. cv_filter (draw img (currentState e')) =
                   join_ops (base_stage (currentState e')))"
      and r: "\<forall>r. p_cropRatio ?p = Some r \<and> r \<notin> set ratios \<longrightarrow>
            cropRatio (currentState e') = r
            \<and> (\<forall>W H a b rest.
                  0 < W \<and> 0 < H \<and> split_on CHR '':'' r = a # b # rest
                  \<and> decimal a \<and> decimal b \<and> Number_digits b \<noteq> 0 \<longrightarrow>
                  cv_source (draw (W, H) (currentState e')) =
                    centred_crop W H (Number_digits a / Number_digits b))"
    by blast
  from f ev have cs: "currentState e' = ?s" by simp
  from n pf have "cv_filter (draw (10, 10) (currentState e')) =
      join_ops (base_stage (currentState e'))" by blast
  then have w1: "cv_filter (draw (10, 10) ?s) = join_ops (base_stage ?s)"
    unfolding cs .
  from r pc have "\<forall>W H a b rest.
                  0 < W \<and> 0 < H \<and> split_on CHR '':'' ''3:2'' = a # b # rest
                  \<and> decimal a \<and> decimal b \<and> Number_digits b \<noteq> 0 \<longrightarrow>
                  cv_source (draw (W, H) (currentState e')) =
                    centred_crop W H (Number_digits a / Number_digits b)" by blast
  with sp dec have "cv_source (draw (10, 10) (currentState e')) =
      centred_crop 10 10 (Number_digits ''3'' / Number_digits ''2'')" by simp
  then have w2: "cv_source (draw (10, 10) ?s) =
      \<lparr>cropX = 0, cropY = 5 / 3, cropW = 10, cropH = 20 / 3\<rparr>"
    unfolding cs by (simp add: centred_crop_def Number_digits_def digit_val_def)
  from pf pc sp dec ev w1 w2 show ?thesis by simp
qed

subsection \<open>Geometry\<close>

text \<open>C8. For a source of positive width and height, any of the four supported crop ratios
  and a rotation that is a multiple of 90, the crop rectangle and the canvas size of the
  draw effect are those of the algorithm of the specification; a 1000 by 500 source with
  ratio 1:1 is cropped to 500 by 500 at (250, 0), and an 800 by 600 crop rotated by 90
  degrees gets a 600 by 800 canvas.\<close>

theorem geometry_matches_spec:
  assumes "0 < W" and "0 < H" and "cropRatio s \<in> set ratios" and "rotation s mod 90 = 0"
  shows "cv_source (draw (W, H) s) = spec_crop W H (cropRatio s)
     \<and> (cv_width (draw (W, H) s), cv_height (draw (W, H) s)) =
         spec_bounding_box (spec_crop W H (cropRatio s)) (rotation s)
     \<and> cv_source (draw (1000, 500) (initialState\<lparr>cropRatio := ''1:1''\<rparr>)) =
         \<lparr>cropX = 250, cropY = 0, cropW = 500, cropH = 500\<rparr>
     \<and> cv_source (draw (800, 600) (initialState\<lparr>rotation := 90\<rparr>)) =
         \<lparr>cropX = 0, cropY = 0, cropW = 800, cropH = 600\<rparr>
     \<and> cv_width (draw (800, 600) (initialState\<lparr>rotation := 90\<rparr>)) = 600
     \<and> cv_height (draw (800, 600) (initialState\<lparr>rotation := 90\<rparr>)) = 800"
proof -
  have a: "cv_source (draw (W, H) s) = spec_crop W H (cropRatio s)"
    by (simp add: draw_source crop_window_eq_spec [OF assms(3)])
  have b: "(cv_width (draw (W, H) s), cv_height (draw (W, H) s)) =
         spec_bounding_box (spec_crop W H (cropRatio s)) (rotation s)"
    by (simp only: draw_size canvas_size_eq_spec crop_window_eq_spec [OF assms(3)])
  have c: "cv_source (draw (1000, 500) (initialState\<lparr>cropRatio := ''1:1''\<rparr>)) =
         \<lparr>cropX = 250, cropY = 0, cropW = 500, cropH = 500\<rparr>"
    by (simp add: draw_source crop_example)
  have d: "cv_source (draw (800, 600) (initialState\<lparr>rotation := 90\<rparr>)) =
         \<lparr>cropX = 0, cropY = 0, cropW = 800, cropH = 600\<rparr>"
    using rot_example by (simp add: draw_source initialState_def)
  have e: "cv_width (draw (800, 600) (initialState\<lparr>rotation := 90\<rparr>)) = 600
          \<and> cv_height (draw (800, 600) (initialState\<lparr>rotation := 90\<rparr>)) = 800"
    by (simp add: draw_def Let_def initialState_def crop_window_eq_spec ratios_def
          spec_crop_def canvas_size_eq_spec spec_bounding_box_def)
  from a b c d e show ?thesis by simp
qed

theorem geometry_matches_spec_witness:
  "(0::nat) < 1920 \<and> (0::nat) < 1080 \<and> ''4:3'' \<in> set ratios \<and> (270::int) mod 90 = 0
   \<and> cv_source (draw (1920, 1080) (initialState\<lparr>cropRatio := ''4:3'', rotation := 270\<rparr>)) =
       \<lparr>cropX = 240, cropY = 0, cropW = 1440, cropH = 1080\<rparr>
   \<and> cv_width (draw (1920, 1080) (initialState\<lparr>cropRatio := ''4:3'', rotation := 270\<rparr>)) = 1080
   \<and> cv_height (draw (1920, 1080) (initialState\<lparr>cropRatio := ''4:3'', rotation := 270\<rparr>)) = 1440"
  using geometry_matches_spec
    [of 1920 1080 "initialState\<lparr>cropRatio := ''4:3'', rotation := 270\<rparr>"]
  by (simp add: spec_crop_def spec_components_def spec_bounding_box_def initialState_def
        ratios_def)

text \<open>C10. For a source of positive width and height and each of the ratios 1:1, 4:3 and
  16:9, the source rectangle of \<open>drawImage\<close> lies inside the source image, has positive
  width and height, and its width divided by its height is exactly the requested ratio.\<close>

theorem crop_window_within_source:
  assumes "0 < W" and "0 < H" and "cropRatio s \<in> set [''1:1'', ''4:3'', ''16:9'']"
  shows "0 \<le> cropX (cv_source (draw (W, H) s))
     \<and> 0 \<le> cropY (cv_source (draw (W, H) s))
     \<and> cropX (cv_source (draw (W, H) s)) + cropW (cv_source (draw (W, H) s)) \<le> of_nat W
     \<and> cropY (cv_source (draw (W, H) s)) + cropH (cv_source (draw (W, H) s)) \<le> of_nat H
     \<and> 0 < cropW (cv_source (draw (W, H) s))
     \<and> 0 < cropH (cv_source (draw (W, H) s))
     \<and> cropW (cv_source (draw (W, H) s)) / cropH (cv_source (draw (W, H) s)) =
         fst (spec_components (cropRatio s)) / snd (spec_components (cropRatio s))
     \<and> spec_components ''1:1'' = (1, 1)
     \<and> spec_components ''4:3'' = (4, 3)
     \<and> spec_components ''16:9'' = (16, 9)"
proof -
  define r where "r = fst (spec_components (cropRatio s)) / snd (spec_components (cropRatio s))"
  have r: "0 < r" by (simp add: r_def spec_components_def)
  have sup: "cropRatio s \<in> set ratios" and no: "cropRatio s \<noteq> ''original''"
    using assms(3) by (auto simp: ratios_def)
  have W: "0 < (of_nat W :: rat)" and H: "0 < (of_nat H :: rat)" using assms by simp_all
  have comps: "spec_components ''1:1'' = (1, 1)" "spec_components ''4:3'' = (4, 3)"
    "spec_components ''16:9'' = (16, 9)"
    by (simp_all add: spec_components_def)
  show ?thesis
  proof (cases "of_nat W / of_nat H > r")
    case True
    have c: "cv_source (draw (W, H) s) =
        \<lparr>cropX = (of_nat W - of_nat H * r) / 2, cropY = 0, cropW = of_nat H * r, cropH = of_nat H\<rparr>"
      using True no
      by (simp add: draw_source crop_window_eq_spec [OF sup] spec_crop_def r_def Let_def)
    show ?thesis
      unfolding c r_def [symmetric] using crop_inside_wide [OF W H r True] H comps by simp
  next
    case False
    have c: "cv_source (draw (W, H) s) =
        \<lparr>cropX = 0, cropY = (of_nat H - of_nat W / r) / 2, cropW = of_nat W, cropH = of_nat W / r\<rparr>"
      using False no
      by (simp add: draw_source crop_window_eq_spec [OF sup] spec_crop_def r_def Let_def)
    show ?thesis
      unfolding c r_def [symmetric] using crop_inside_tall [OF W H r False] W comps by simp
  qed
qed

theorem crop_window_within_source_witness:
  "(0::nat) < 100 \<and> (0::nat) < 100
   \<and> cropRatio (initialState\<lparr>cropRatio := ''16:9''\<rparr>) \<in> set [''1:1'', ''4:3'', ''16:9'']
   \<and> cv_source (draw (100, 100) (initialState\<lparr>cropRatio := ''16:9''\<rparr>)) =
        \<lparr>cropX = 0, cropY = 175 / 8, cropW = 100, cropH = 225 / 4\<rparr>
   \<and> cropY (cv_source (draw (100, 100) (initialState\<lparr>cropRatio := ''16:9''\<rparr>)))
       + cropH (cv_source (draw (100, 100) (initialState\<lparr>cropRatio := ''16:9''\<rparr>))) \<le> 100"
  using crop_window_within_source [of 100 100 "initialState\<lparr>cropRatio := ''16:9''\<rparr>"]
  by (simp add: draw_source crop_window_eq_spec ratios_def spec_crop_def spec_components_def
        initialState_def)

subsection \<open>Filter chain\<close>

text \<open>C9. For every state, the filter the canvas is drawn with is the base stage (brightness,
  contrast, saturation, in this order) followed by the operations the table gives for the
  preset name; the base stage is a prefix of it; \<open>none\<close> adds nothing and each of the
  ten other presets adds at least one operation.\<close>

theorem filter_chain_base_first:
  "cv_filter (draw img s) = join_ops (base_stage s @ preset_stage (filterPreset s))
   \<and> prefix (join_ops (base_stage s)) (cv_filter (draw img s))
   \<and> base_stage s =
       [''brightness('' @ number_text (brightness s) @ ''%)'',
        ''contrast('' @ number_text (contrast s) @ ''%)'',
        ''saturate('' @ number_text (saturation s) @ ''%)'']
   \<and> preset_stage ''none'' = []
   \<and> [] \<notin> set (map preset_stage
         [''grayscale'', ''sepia'', ''invert'', ''warm'', ''cool'', ''vintage'', ''bw-film'',
          ''neo-noir'', ''polaroid'', ''dramatic''])
   \<and> cv_filter (draw img (initialState\<lparr>filterPreset := ''warm''\<rparr>)) =
       ''brightness(100%) contrast(100%) saturate(100%) sepia(30%) saturate(140%)''"
proof -
  have a: "cv_filter (draw img s) = join_ops (base_stage s @ preset_stage (filterPreset s))"
    by (simp only: draw_filter filterString_chain)
  have b: "prefix (join_ops (base_stage s)) (cv_filter (draw img s))"
    by (simp only: draw_filter filterString_base_first)
  have c: "preset_stage ''none'' = []"
    by (simp add: preset_stage_def preset_table_def)
  have d: "[] \<notin> set (map preset_stage
         [''grayscale'', ''sepia'', ''invert'', ''warm'', ''cool'', ''vintage'', ''bw-film'',
          ''neo-noir'', ''polaroid'', ''dramatic''])"
    by (simp add: preset_stage_def preset_table_def)
  have e: "cv_filter (draw img (initialState\<lparr>filterPreset := ''warm''\<rparr>)) =
       ''brightness(100%) contrast(100%) saturate(100%) sepia(30%) saturate(140%)''"
    by (simp add: draw_filter filterString_def initialState_def number_text_def digits.simps digit_chars Let_def)
  from a b c d e show ?thesis by (simp add: base_stage_def)
qed

end
